theory Spec2Isabelle
  imports Complex_Main "HOL-Library.Log_Nat"
begin

section \<open>The particle canvas of script.js\<close>

text \<open>
  The development embeds the section PARTICLES CANVAS of \<^verbatim>\<open>src/script.js\<close>
  (lines 92 to 159) together with the two globals \<^verbatim>\<open>mouseX\<close>, \<^verbatim>\<open>mouseY\<close>
  and their \<^verbatim>\<open>mousemove\<close> listener (lines 43 and 44).

  Numbers. A JavaScript number is read as a real. Two operations of the section are
  modelled more closely, because what they do beyond real arithmetic decides a property.
  The division by \<^verbatim>\<open>canvas.width\<close> and \<^verbatim>\<open>canvas.height\<close> in the parallax
  computation divides by zero on a canvas without extent; its result and everything
  computed from it is a \<open>jsnum\<close>, a real or one of the three special values. The
  addition \<^verbatim>\<open>p.twinkle += p.twinkleSpeed\<close> is the one place where a number accumulates
  over the frames without ever being set anew; it is the addition of IEEE doubles, the real
  sum rounded to the nearest double. \<^verbatim>\<open>canvas.width\<close> and \<^verbatim>\<open>canvas.height\<close> are
  attributes of type unsigned long and are natural numbers here;
  \<^verbatim>\<open>Math.floor(area / d)\<close> on natural numbers is \<open>area div d\<close> (the double quotient
  of two integers below \<open>2 ^ 53\<close> never rounds up to the next integer).
\<close>

subsection \<open>Numbers that may be infinite or NaN\<close>

datatype jsnum = Fin real | PosInf | NegInf | NaN

text \<open>\<^verbatim>\<open>a / b\<close> for finite operands; the divisor of the source is never a negative zero.\<close>

definition js_div :: "real \<Rightarrow> real \<Rightarrow> jsnum" where
  "js_div a b =
     (if b \<noteq> 0 then Fin (a / b)
      else if a > 0 then PosInf
      else if a < 0 then NegInf
      else NaN)"

text \<open>\<^verbatim>\<open>v - c\<close>, \<^verbatim>\<open>v * c\<close> and \<^verbatim>\<open>c + v\<close> for a finite \<open>c\<close>.\<close>

fun js_sub :: "jsnum \<Rightarrow> real \<Rightarrow> jsnum" where
  "js_sub (Fin a) c = Fin (a - c)"
| "js_sub PosInf c = PosInf"
| "js_sub NegInf c = NegInf"
| "js_sub NaN c = NaN"

fun js_mul :: "jsnum \<Rightarrow> real \<Rightarrow> jsnum" where
  "js_mul (Fin a) c = Fin (a * c)"
| "js_mul PosInf c = (if c > 0 then PosInf else if c < 0 then NegInf else NaN)"
| "js_mul NegInf c = (if c > 0 then NegInf else if c < 0 then PosInf else NaN)"
| "js_mul NaN c = NaN"

fun js_add :: "real \<Rightarrow> jsnum \<Rightarrow> jsnum" where
  "js_add c (Fin a) = Fin (c + a)"
| "js_add c PosInf = PosInf"
| "js_add c NegInf = NegInf"
| "js_add c NaN = NaN"

fun is_finite :: "jsnum \<Rightarrow> bool" where
  "is_finite (Fin a) = True"
| "is_finite PosInf = False"
| "is_finite NegInf = False"
| "is_finite NaN = False"

subsection \<open>Rounding to the nearest double\<close>

text \<open>
  The finite doubles are the numbers \<open>m * 2 ^ q\<close> with \<open>\<bar>m\<bar> < 2 ^ 53\<close> and
  \<open>-1074 \<le> q \<le> 971\<close>. Scaled by \<open>2 ^ 1074\<close> they are integers: all integers up to
  \<open>2 ^ 53\<close>, and from there on the multiples of \<open>2 ^ k\<close> between \<open>2 ^ (52 + k)\<close> and
  \<open>2 ^ (53 + k)\<close>. Rounding takes the nearest of them, and of two equally near the one
  with the even significand.
\<close>

definition round_half_even :: "real \<Rightarrow> int" where
  "round_half_even u =
     (let f = \<lfloor>u\<rfloor>; d = u - of_int f in
      if d < 1 / 2 then f
      else if 1 / 2 < d then f + 1
      else if even f then f else f + 1)"

text \<open>The exponent \<open>k\<close> of the spacing \<open>2 ^ k\<close> of the scaled doubles around \<open>Y\<close>.\<close>

definition ulp_exp :: "real \<Rightarrow> nat" where
  "ulp_exp Y = nat (bitlen \<lfloor>\<bar>Y\<bar>\<rfloor> - 53)"

definition grid :: "real \<Rightarrow> real" where
  "grid Y = of_int (round_half_even (Y / 2 ^ ulp_exp Y)) * 2 ^ ulp_exp Y"

text \<open>
  The double nearest to a real. A result of \<open>2 ^ 1024\<close> or more would be Infinity in the
  source; the phase of a star, the one number rounded here, stays at most \<open>2 ^ 53\<close>
  when it starts there and the speed is at most 0.04 (lemma \<open>double_round_capped\<close>).
\<close>

definition double_round :: "real \<Rightarrow> real" where
  "double_round x = grid (x * 2 ^ 1074) / 2 ^ 1074"

subsection \<open>Particles and the page state\<close>

text \<open>
  The objects pushed on \<^verbatim>\<open>particles\<close> carry a \<^verbatim>\<open>type\<close> tag, \<^verbatim>\<open>'dot'\<close> or
  \<^verbatim>\<open>'star'\<close>, and the fields of that kind, in the order of the object literals.
\<close>

datatype particle =
    Dot (p_x: real) (p_y: real) (p_vx: real) (p_vy: real) (p_r: real) (p_alpha: real)
  | Star (p_x: real) (p_y: real) (p_r: real) (p_twinkle: real) (p_twinkleSpeed: real)
      (p_baseAlpha: real) (p_parallax: real)

text \<open>The tests \<^verbatim>\<open>p.type === 'dot'\<close> and \<^verbatim>\<open>p.type === 'star'\<close>.\<close>

fun is_dot :: "particle \<Rightarrow> bool" where
  "is_dot (Dot x y vx vy r a) = True"
| "is_dot (Star x y r tw ts ba par) = False"

fun is_star :: "particle \<Rightarrow> bool" where
  "is_star (Dot x y vx vy r a) = False"
| "is_star (Star x y r tw ts ba par) = True"

record page =
  canvas_width :: nat
  canvas_height :: nat
  mouseX :: real
  mouseY :: real
  particles :: "particle list"

text \<open>The state in which the section starts: \<^verbatim>\<open>let mouseX = 0, mouseY = 0\<close> and
  \<^verbatim>\<open>const particles = []\<close>; the canvas has no size the script relies on.\<close>

definition page0 :: page where
  "page0 = \<lparr>canvas_width = 0, canvas_height = 0, mouseX = 0, mouseY = 0, particles = []\<rparr>"

subsection \<open>resizeCanvas and the mousemove listener\<close>

text \<open>\<^verbatim>\<open>function resizeCanvas(){ canvas.width = innerWidth; canvas.height = innerHeight; }\<close>\<close>

definition resizeCanvas :: "nat \<Rightarrow> nat \<Rightarrow> page \<Rightarrow> page" where
  "resizeCanvas innerWidth innerHeight s =
     s\<lparr>canvas_width := innerWidth, canvas_height := innerHeight\<rparr>"

text \<open>\<^verbatim>\<open>(e) => { mouseX = e.clientX; mouseY = e.clientY; }\<close>\<close>

definition mousemove :: "real \<Rightarrow> real \<Rightarrow> page \<Rightarrow> page" where
  "mousemove clientX clientY s = s\<lparr>mouseX := clientX, mouseY := clientY\<rparr>"

subsection \<open>createParticles\<close>

text \<open>
  \<^verbatim>\<open>Math.random()\<close> is the function \<open>rnd\<close>: \<open>rnd k\<close> is the value of the call number
  \<open>k\<close> made by one run of \<^verbatim>\<open>createParticles\<close>. An object literal evaluates its
  properties in the order written, so a dot draws six values and a star seven.
\<close>

definition new_dot :: "nat \<Rightarrow> nat \<Rightarrow> (nat \<Rightarrow> real) \<Rightarrow> nat \<Rightarrow> particle" where
  "new_dot W H rnd k =
     Dot (rnd k * real W) (rnd (k + 1) * real H)
         ((rnd (k + 2) - 0.5) * 0.3) ((rnd (k + 3) - 0.5) * 0.6)
         (rnd (k + 4) * 2 + 0.2) (rnd (k + 5) * 0.12 + 0.03)"

definition new_star :: "nat \<Rightarrow> nat \<Rightarrow> (nat \<Rightarrow> real) \<Rightarrow> nat \<Rightarrow> particle" where
  "new_star W H rnd k =
     Star (rnd k * real W) (rnd (k + 1) * real H)
          (rnd (k + 2) * 1.6 + 0.4)
          (rnd (k + 3) * pi * 2)
          (rnd (k + 4) * 0.035 + 0.005)
          (rnd (k + 5) * 0.8 + 0.15)
          (rnd (k + 6) * 0.8 + 0.2)"

text \<open>
  \<^verbatim>\<open>particles.length = 0\<close> empties the array; the two \<^verbatim>\<open>for\<close> loops push
  \<open>dotCount\<close> dots and then \<open>starCount\<close> stars.
\<close>

definition createParticles :: "(nat \<Rightarrow> real) \<Rightarrow> page \<Rightarrow> page" where
  "createParticles rnd s =
     (let W = canvas_width s; H = canvas_height s;
          area = W * H;
          dotCount = max 30 (area div 140000);
          starCount = max 70 (area div 60000);
          dots = map (\<lambda>i. new_dot W H rnd (6 * i)) [0..<dotCount];
          stars = map (\<lambda>i. new_star W H rnd (6 * dotCount + 7 * i)) [0..<starCount]
      in s\<lparr>particles := [] @ dots @ stars\<rparr>)"

subsection \<open>drawParticles\<close>

text \<open>
  The canvas element and its 2D context are taken to exist. The calls made on the context
  are collected in the order they are made. Of these only \<^verbatim>\<open>ctx.arc\<close> can throw: by
  the canvas standard it returns at once when an argument is infinite or NaN and otherwise
  throws an IndexSizeError when the radius is negative. The alpha that the source writes
  into the \<^verbatim>\<open>rgba(255,255,255,...)\<close> string of \<^verbatim>\<open>fillStyle\<close> is kept as a number.
\<close>

datatype error = IndexSizeError

datatype ctx_call =
    ClearRect real real real real
  | BeginPath
  | FillStyle real
  | Arc jsnum jsnum real
  | Fill

definition ctx_arc :: "jsnum \<Rightarrow> jsnum \<Rightarrow> real \<Rightarrow> error + ctx_call" where
  "ctx_arc cx cy radius =
     (if \<not> (is_finite cx \<and> is_finite cy) then Inr (Arc cx cy radius)
      else if radius < 0 then Inl IndexSizeError
      else Inr (Arc cx cy radius))"

text \<open>Lines 135 to 139: the position of a dot advances, then four tests in sequence.\<close>

definition move_dot :: "nat \<Rightarrow> nat \<Rightarrow> particle \<Rightarrow> particle" where
  "move_dot W H p =
     (let x1 = p_x p + p_vx p;
          y1 = p_y p + p_vy p;
          x2 = (if x1 < - 50 then real W + 20 else x1);
          x3 = (if x2 > real W + 50 then - 20 else x2);
          y2 = (if y1 < - 50 then real H + 20 else y1);
          y3 = (if y2 > real H + 50 then - 20 else y2)
      in Dot x3 y3 (p_vx p) (p_vy p) (p_r p) (p_alpha p))"

text \<open>Line 143: \<^verbatim>\<open>p.twinkle += p.twinkleSpeed\<close>, an addition of doubles.\<close>

definition twinkle_star :: "particle \<Rightarrow> particle" where
  "twinkle_star p =
     Star (p_x p) (p_y p) (p_r p) (double_round (p_twinkle p + p_twinkleSpeed p))
          (p_twinkleSpeed p) (p_baseAlpha p) (p_parallax p)"

text \<open>Lines 144 and 145, on the star whose phase has been advanced.\<close>

definition star_alpha :: "particle \<Rightarrow> real" where
  "star_alpha p = (let t = \<bar>sin (p_twinkle p)\<bar> in min 1 (p_baseAlpha p + t * 0.6))"

text \<open>Lines 148 and 149.\<close>

definition parallax_offset :: "nat \<Rightarrow> nat \<Rightarrow> real \<Rightarrow> real \<Rightarrow> real \<Rightarrow> jsnum \<times> jsnum" where
  "parallax_offset W H mx my par =
     (js_mul (js_mul (js_sub (js_div mx (real W)) 0.5) 30) par,
      js_mul (js_mul (js_sub (js_div my (real H)) 0.5) 30) par)"

text \<open>The body of the loop over \<^verbatim>\<open>particles\<close>: the particle as the body leaves it and
  the context calls it makes, or the exception that ends the frame.\<close>

fun draw_particle ::
  "nat \<Rightarrow> nat \<Rightarrow> real \<Rightarrow> real \<Rightarrow> particle \<Rightarrow> error + (particle \<times> ctx_call list)" where
  "draw_particle W H mx my (Dot x y vx vy r a) =
     (let p = move_dot W H (Dot x y vx vy r a) in
      case ctx_arc (Fin (p_x p)) (Fin (p_y p)) (p_r p) of
        Inl e \<Rightarrow> Inl e
      | Inr c \<Rightarrow> Inr (p, [BeginPath, FillStyle (p_alpha p), c, Fill]))"
| "draw_particle W H mx my (Star x y r tw ts ba par) =
     (let p = twinkle_star (Star x y r tw ts ba par);
          a = star_alpha p;
          (px, py) = parallax_offset W H mx my (p_parallax p)
      in
      case ctx_arc (js_add (p_x p) px) (js_add (p_y p) py) (p_r p * 1.1) of
        Inl e \<Rightarrow> Inl e
      | Inr c1 \<Rightarrow>
          (case ctx_arc (js_add (p_x p) px) (js_add (p_y p) py) (p_r p * 2.6) of
             Inl e \<Rightarrow> Inl e
           | Inr c2 \<Rightarrow>
               Inr (p, [BeginPath, FillStyle a, c1, Fill,
                        BeginPath, FillStyle (a * 0.6), c2, Fill])))"

fun draw_loop ::
  "nat \<Rightarrow> nat \<Rightarrow> real \<Rightarrow> real \<Rightarrow> particle list \<Rightarrow> error + (particle list \<times> ctx_call list)" where
  "draw_loop W H mx my [] = Inr ([], [])"
| "draw_loop W H mx my (p # ps) =
     (case draw_particle W H mx my p of
        Inl e \<Rightarrow> Inl e
      | Inr (p', cs) \<Rightarrow>
          (case draw_loop W H mx my ps of
             Inl e \<Rightarrow> Inl e
           | Inr (ps', cs') \<Rightarrow> Inr (p' # ps', cs @ cs')))"

text \<open>One run of \<^verbatim>\<open>drawParticles\<close>: the page it leaves and the frame it draws. The
  closing \<^verbatim>\<open>requestAnimationFrame(drawParticles)\<close> is reached only without exception;
  it is what makes the next \<open>AnimationFrame\<close> event possible.\<close>

definition drawParticles :: "page \<Rightarrow> error + (page \<times> ctx_call list)" where
  "drawParticles s =
     (let W = canvas_width s; H = canvas_height s in
      case draw_loop W H (mouseX s) (mouseY s) (particles s) of
        Inl e \<Rightarrow> Inl e
      | Inr (ps, cs) \<Rightarrow> Inr (s\<lparr>particles := ps\<rparr>, ClearRect 0 0 (real W) (real H) # cs))"

subsection \<open>The page over time\<close>

text \<open>
  Loading the script runs \<^verbatim>\<open>resizeCanvas()\<close>, \<^verbatim>\<open>createParticles()\<close> and
  \<^verbatim>\<open>drawParticles()\<close> once, in this order (lines 96, 126 and 159). After that the page
  reacts to three events: the window's \<^verbatim>\<open>resize\<close>, whose only listener is
  \<^verbatim>\<open>resizeCanvas\<close>, the document's \<^verbatim>\<open>mousemove\<close>, and the animation frame that
  \<^verbatim>\<open>drawParticles\<close> requested.
\<close>

definition load :: "nat \<Rightarrow> nat \<Rightarrow> (nat \<Rightarrow> real) \<Rightarrow> error + page" where
  "load innerWidth innerHeight rnd =
     (case drawParticles (createParticles rnd (resizeCanvas innerWidth innerHeight page0)) of
        Inl e \<Rightarrow> Inl e
      | Inr (s, frame) \<Rightarrow> Inr s)"

datatype event = Resize nat nat | MouseMove real real | AnimationFrame

fun handle :: "event \<Rightarrow> page \<Rightarrow> error + page" where
  "handle (Resize w h) s = Inr (resizeCanvas w h s)"
| "handle (MouseMove cx cy) s = Inr (mousemove cx cy s)"
| "handle AnimationFrame s =
     (case drawParticles s of Inl e \<Rightarrow> Inl e | Inr (s', frame) \<Rightarrow> Inr s')"

fun run :: "event list \<Rightarrow> page \<Rightarrow> error + page" where
  "run [] s = Inr s"
| "run (e # es) s = (case handle e s of Inl x \<Rightarrow> Inl x | Inr s' \<Rightarrow> run es s')"

text \<open>A session: the load of the script, then the events in the order they arrive.\<close>

definition session :: "nat \<Rightarrow> nat \<Rightarrow> (nat \<Rightarrow> real) \<Rightarrow> event list \<Rightarrow> error + page" where
  "session innerWidth innerHeight rnd es =
     (case load innerWidth innerHeight rnd of Inl x \<Rightarrow> Inl x | Inr s \<Rightarrow> run es s)"

subsection \<open>Devices of the proofs\<close>

text \<open>What one pass of the loop body does to the stored particle, without the drawing.\<close>

fun advance :: "nat \<Rightarrow> nat \<Rightarrow> particle \<Rightarrow> particle" where
  "advance W H (Dot x y vx vy r a) = move_dot W H (Dot x y vx vy r a)"
| "advance W H (Star x y r tw ts ba par) = twinkle_star (Star x y r tw ts ba par)"

text \<open>A particle with the fields that a frame writes blanked out: the position of a dot, the
  phase of a star.\<close>

fun kept :: "particle \<Rightarrow> particle" where
  "kept (Dot x y vx vy r a) = Dot 0 0 vx vy r a"
| "kept (Star x y r tw ts ba par) = Star x y r 0 ts ba par"

text \<open>The ranges in which \<^verbatim>\<open>createParticles\<close> draws the fields that no frame writes.\<close>

fun in_ranges :: "particle \<Rightarrow> bool" where
  "in_ranges (Dot x y vx vy r a) =
     (- 0.15 \<le> vx \<and> vx < 0.15 \<and> - 0.3 \<le> vy \<and> vy < 0.3 \<and>
      0.2 \<le> r \<and> r < 2.2 \<and> 0.03 \<le> a \<and> a < 0.15)"
| "in_ranges (Star x y r tw ts ba par) =
     (0.4 \<le> r \<and> r < 2 \<and> 0.005 \<le> ts \<and> ts < 0.04 \<and>
      0.15 \<le> ba \<and> ba < 0.95 \<and> 0.2 \<le> par \<and> par < 1)"

text \<open>\<^verbatim>\<open>Math.random()\<close> returns a number in \<open>[0, 1)\<close>.\<close>

definition unit_random :: "(nat \<Rightarrow> real) \<Rightarrow> bool" where
  "unit_random rnd = (\<forall>k. 0 \<le> rnd k \<and> rnd k < 1)"

definition all_in_ranges :: "page \<Rightarrow> bool" where
  "all_in_ranges s = list_all in_ranges (particles s)"



text \<open>The number of context calls that the loop makes for the particles before index
  \<open>i\<close>, after the one call of \<^verbatim>\<open>clearRect\<close>: four for a dot, eight for a star. It is
  the place in the frame where the calls for particle \<open>i\<close> start.\<close>

definition calls_start :: "particle list \<Rightarrow> nat \<Rightarrow> nat" where
  "calls_start ps i =
     1 + 4 * length (filter is_dot (take i ps)) + 8 * length (filter is_star (take i ps))"

text \<open>Two random sources for concrete runs: every call returns 0, and call \<open>k\<close> returns
  \<open>1 / (k + 2)\<close>.\<close>

definition rnd_zero :: "nat \<Rightarrow> real" where
  "rnd_zero k = 0"


text \<open>The page after the script has loaded, when no call of \<^verbatim>\<open>ctx.arc\<close> throws:
  the created population, advanced by the first frame.\<close>

definition loaded :: "nat \<Rightarrow> nat \<Rightarrow> (nat \<Rightarrow> real) \<Rightarrow> page" where
  "loaded W H rnd =
     (createParticles rnd (resizeCanvas W H page0))
       \<lparr>particles := map (advance W H)
          (particles (createParticles rnd (resizeCanvas W H page0)))\<rparr>"

text \<open>A page of 100 by 50 with one dot beyond the right and the upper margin, and one
  star; the same page with the pointer at the centre of the canvas; and a page whose one
  star is at the phase \<open>2 ^ 53\<close>.\<close>

definition demo_page :: page where
  "demo_page =
     \<lparr>canvas_width = 100, canvas_height = 50, mouseX = 0, mouseY = 0,
      particles = [Dot 160 (- 60) 0 0 1 (1 / 10), Star 10 20 1 0 (1 / 64) (1 / 2) (1 / 2)]\<rparr>"

definition centred_page :: page where
  "centred_page = demo_page\<lparr>mouseX := 50, mouseY := 25\<rparr>"


text \<open>What one run of \<^verbatim>\<open>drawParticles\<close> makes of these pages: the particles it leaves,
  and the frame it draws, given the centre of the two discs of the star.\<close>

definition demo_particles :: "particle list" where
  "demo_particles =
     [Dot (- 20) 70 0 0 1 (1 / 10), Star 10 20 1 (1 / 64) (1 / 64) (1 / 2) (1 / 2)]"

definition demo_frame :: "real \<Rightarrow> real \<Rightarrow> ctx_call list" where
  "demo_frame cx cy =
     [ClearRect 0 0 100 50,
      BeginPath, FillStyle (1 / 10), Arc (Fin (- 20)) (Fin 70) 1, Fill,
      BeginPath, FillStyle (min 1 (1 / 2 + \<bar>sin (1 / 64)\<bar> * 0.6)),
      Arc (Fin cx) (Fin cy) (11 / 10), Fill,
      BeginPath, FillStyle (min 1 (1 / 2 + \<bar>sin (1 / 64)\<bar> * 0.6) * 0.6),
      Arc (Fin cx) (Fin cy) (13 / 5), Fill]"

text \<open>A page whose one star, of base opacity 0.9, reaches the phase 1 with the next frame,
  and the frame drawn of it.\<close>

definition bright_page :: page where
  "bright_page =
     \<lparr>canvas_width = 100, canvas_height = 50, mouseX = 0, mouseY = 0,
      particles = [Star 10 20 1 (63 / 64) (1 / 64) (9 / 10) (1 / 2)]\<rparr>"

definition bright_frame :: "ctx_call list" where
  "bright_frame =
     [ClearRect 0 0 100 50,
      BeginPath, FillStyle 1, Arc (Fin (5 / 2)) (Fin (25 / 2)) (11 / 10), Fill,
      BeginPath, FillStyle (3 / 5), Arc (Fin (5 / 2)) (Fin (25 / 2)) (13 / 5), Fill]"

section \<open>Properties\<close>

subsection \<open>Rounding to the nearest double\<close>



lemma rhe_of_int [simp]: "round_half_even (of_int n) = n"
  by (simp add: round_half_even_def)





lemma nat_53 [simp]: "nat (53 + int j) = 53 + j" "nat (53 + int j) - Suc 0 = 52 + j"
  by arith+




lemma ulp_exp_eq:
  assumes "2 ^ (52 + j) \<le> Y" and "Y < 2 ^ (53 + j)"
  shows "ulp_exp Y = j"
proof -
  have "(0::real) \<le> 2 ^ (52 + j)" by simp
  then have Y0: "0 \<le> Y" using assms(1) by linarith
  have "of_int ((2::int) ^ (52 + j)) \<le> Y" using assms(1) by simp
  then have lo: "(2::int) ^ (52 + j) \<le> \<lfloor>Y\<rfloor>"
    using le_floor_iff by blast
  have "Y < of_int ((2::int) ^ (53 + j))" using assms(2) by simp
  then have hi: "\<lfloor>Y\<rfloor> < (2::int) ^ (53 + j)"
    using floor_less_iff by blast
  have "bitlen \<lfloor>Y\<rfloor> \<le> int (53 + j)"
    using hi bitlen_le_iff_power [of "\<lfloor>Y\<rfloor>" "int (53 + j)"] by simp
  moreover have "int (53 + j) \<le> bitlen \<lfloor>Y\<rfloor>"
    using lo bitlen_ge_iff_power [of "int (53 + j)" "\<lfloor>Y\<rfloor>"] by simp
  ultimately have "bitlen \<lfloor>Y\<rfloor> = int (53 + j)" by simp
  then show ?thesis using Y0 by (simp add: ulp_exp_def)
qed


















lemma double_round_binade:
  assumes "2 ^ (52 + j) \<le> x * 2 ^ 1074" and "x * 2 ^ 1074 < 2 ^ (53 + j)"
  shows "double_round x = of_int (round_half_even (x * 2 ^ 1074 / 2 ^ j)) * 2 ^ j / 2 ^ 1074"
  unfolding double_round_def grid_def ulp_exp_eq [OF assms] ..

lemma double_round_tenth: "double_round (1 / 10) = 3602879701896397 / 2 ^ 55"
proof -
  have "double_round (1 / 10) =
          of_int (round_half_even (1 / 10 * 2 ^ 1074 / 2 ^ 1018)) * 2 ^ 1018 / 2 ^ 1074"
    by (rule double_round_binade) simp_all
  also have "1 / 10 * 2 ^ 1074 / 2 ^ 1018 = (36028797018963968 / 5 :: real)"
    by simp
  also have "round_half_even (36028797018963968 / 5) = 7205759403792794"
    by (simp add: round_half_even_def Let_def)
  finally show ?thesis by simp
qed

lemma double_round_sixty_fourth [simp]: "double_round (1 / 64) = 1 / 64"
proof -
  have "double_round (1 / 64) =
          of_int (round_half_even (1 / 64 * 2 ^ 1074 / 2 ^ 1016)) * 2 ^ 1016 / 2 ^ 1074"
    by (rule double_round_binade) simp_all
  also have "1 / 64 * 2 ^ 1074 / 2 ^ 1016 = (of_int 4503599627370496 :: real)"
    by simp
  finally show ?thesis by (simp only: rhe_of_int) simp
qed


subsection \<open>The loop body and the stored particle\<close>

lemma particles_createParticles:
  "particles (createParticles rnd s) =
     map (\<lambda>i. new_dot (canvas_width s) (canvas_height s) rnd (6 * i))
         [0..<max 30 (canvas_width s * canvas_height s div 140000)] @
     map (\<lambda>i. new_star (canvas_width s) (canvas_height s) rnd
                 (6 * max 30 (canvas_width s * canvas_height s div 140000) + 7 * i))
         [0..<max 70 (canvas_width s * canvas_height s div 60000)]"
  by (simp add: createParticles_def Let_def)

lemma is_dot_new [simp]: "is_dot (new_dot W H rnd k)" "\<not> is_dot (new_star W H rnd k)"
  by (simp_all add: new_dot_def new_star_def)

lemma is_star_new [simp]: "is_star (new_star W H rnd k)" "\<not> is_star (new_dot W H rnd k)"
  by (simp_all add: new_dot_def new_star_def)

lemma count_dots_created:
  "length (filter is_dot (particles (createParticles rnd s))) =
     max 30 (canvas_width s * canvas_height s div 140000)"
  by (simp add: particles_createParticles filter_map o_def)

lemma count_stars_created:
  "length (filter is_star (particles (createParticles rnd s))) =
     max 70 (canvas_width s * canvas_height s div 60000)"
  by (simp add: particles_createParticles filter_map o_def)

lemma draw_particle_advance:
  "draw_particle W H mx my p = Inr (p', cs) \<Longrightarrow> p' = advance W H p"
  by (cases p) (auto simp: Let_def split: sum.splits prod.splits)

lemma draw_loop_advance:
  "draw_loop W H mx my ps = Inr (ps', cs) \<Longrightarrow> ps' = map (advance W H) ps"
proof (induction ps arbitrary: ps' cs)
  case Nil
  then show ?case by simp
next
  case (Cons p ps)
  then show ?case
    by (auto split: sum.splits prod.splits dest: draw_particle_advance)
qed

lemma drawParticles_advance:
  assumes "drawParticles s = Inr (s', frame)"
  shows "s' = s\<lparr>particles := map (advance (canvas_width s) (canvas_height s)) (particles s)\<rparr>"
  using assms
  by (auto simp: drawParticles_def Let_def split: sum.splits prod.splits dest: draw_loop_advance)

lemma kept_advance [simp]: "kept (advance W H p) = kept p"
  by (cases p) (simp_all add: move_dot_def twinkle_star_def Let_def)

lemma in_ranges_advance [simp]: "in_ranges (advance W H p) = in_ranges p"
  by (cases p) (simp_all add: move_dot_def twinkle_star_def Let_def)

lemma is_star_advance [simp]: "is_star (advance W H p) = is_star p"
  by (cases p) (simp_all add: move_dot_def twinkle_star_def Let_def)

lemma is_dot_advance [simp]: "is_dot (advance W H p) = is_dot p"
  by (cases p) (simp_all add: move_dot_def twinkle_star_def Let_def)

lemma handle_kept:
  "handle e s = Inr s' \<Longrightarrow> map kept (particles s') = map kept (particles s)"
  by (cases e)
     (auto simp: resizeCanvas_def mousemove_def split: sum.splits prod.splits
           dest: drawParticles_advance)



subsection \<open>Sessions stay within the ranges of creation and do not throw\<close>

lemma in_ranges_new_dot:
  assumes "unit_random rnd"
  shows "in_ranges (new_dot W H rnd k)"
proof -
  have "0 \<le> rnd (k + 2)" "rnd (k + 2) < 1" "0 \<le> rnd (k + 3)" "rnd (k + 3) < 1"
       "0 \<le> rnd (k + 4)" "rnd (k + 4) < 1" "0 \<le> rnd (k + 5)" "rnd (k + 5) < 1"
    using assms by (simp_all add: unit_random_def)
  then show ?thesis
    by (simp add: new_dot_def)
qed

lemma in_ranges_new_star:
  assumes "unit_random rnd"
  shows "in_ranges (new_star W H rnd k)"
proof -
  have "0 \<le> rnd (k + 2)" "rnd (k + 2) < 1" "0 \<le> rnd (k + 4)" "rnd (k + 4) < 1"
       "0 \<le> rnd (k + 5)" "rnd (k + 5) < 1" "0 \<le> rnd (k + 6)" "rnd (k + 6) < 1"
    using assms by (simp_all add: unit_random_def)
  then show ?thesis
    by (simp add: new_star_def)
qed

lemma created_in_ranges:
  "unit_random rnd \<Longrightarrow> p \<in> set (particles (createParticles rnd s)) \<Longrightarrow> in_ranges p"
  by (auto simp: particles_createParticles in_ranges_new_dot in_ranges_new_star)

lemma draw_particle_ok:
  "in_ranges p \<Longrightarrow> \<exists>cs. draw_particle W H mx my p = Inr (advance W H p, cs)"
  by (cases p)
     (auto simp: Let_def ctx_arc_def move_dot_def twinkle_star_def
           split: sum.splits prod.splits)

lemma draw_loop_ok:
  "(\<And>p. p \<in> set ps \<Longrightarrow> in_ranges p) \<Longrightarrow>
     \<exists>cs. draw_loop W H mx my ps = Inr (map (advance W H) ps, cs)"
proof (induction ps)
  case Nil
  then show ?case by simp
next
  case (Cons p ps)
  obtain c where c: "draw_particle W H mx my p = Inr (advance W H p, c)"
    using draw_particle_ok [of p W H mx my] Cons.prems by auto
  obtain cs where cs: "draw_loop W H mx my ps = Inr (map (advance W H) ps, cs)"
    using Cons by auto
  show ?case by (simp add: c cs)
qed

lemma drawParticles_ok:
  assumes "\<And>p. p \<in> set (particles s) \<Longrightarrow> in_ranges p"
  shows "\<exists>frame. drawParticles s =
           Inr (s\<lparr>particles := map (advance (canvas_width s) (canvas_height s)) (particles s)\<rparr>,
                frame)"
proof -
  obtain cs where
    "draw_loop (canvas_width s) (canvas_height s) (mouseX s) (mouseY s) (particles s) =
       Inr (map (advance (canvas_width s) (canvas_height s)) (particles s), cs)"
    using draw_loop_ok [of "particles s"] assms by blast
  then show ?thesis by (simp add: drawParticles_def Let_def)
qed

lemma handle_in_ranges:
  "all_in_ranges s \<Longrightarrow> \<exists>s'. handle e s = Inr s' \<and> all_in_ranges s'"
proof (cases e)
  case (Resize w h)
  then show "all_in_ranges s \<Longrightarrow> ?thesis"
    by (simp add: all_in_ranges_def resizeCanvas_def)
next
  case (MouseMove cx cy)
  then show "all_in_ranges s \<Longrightarrow> ?thesis"
    by (simp add: all_in_ranges_def mousemove_def)
next
  case AnimationFrame
  assume a: "all_in_ranges s"
  then obtain frame where
    "drawParticles s =
       Inr (s\<lparr>particles := map (advance (canvas_width s) (canvas_height s)) (particles s)\<rparr>,
            frame)"
    using drawParticles_ok [of s] by (auto simp: all_in_ranges_def list_all_iff)
  with a AnimationFrame show ?thesis
    by (simp add: all_in_ranges_def list_all_iff)
qed

lemma run_in_ranges:
  "all_in_ranges s \<Longrightarrow> \<exists>s'. run es s = Inr s' \<and> all_in_ranges s'"
proof (induction es arbitrary: s)
  case Nil
  then show ?case by simp
next
  case (Cons e es)
  obtain s1 where s1: "handle e s = Inr s1" "all_in_ranges s1"
    using handle_in_ranges [OF Cons.prems] by blast
  then show ?case using Cons.IH [OF s1(2)] by simp
qed

lemma load_in_ranges:
  assumes "unit_random rnd"
  shows "load W H rnd =
           Inr ((createParticles rnd (resizeCanvas W H page0))
                  \<lparr>particles := map (advance W H)
                     (particles (createParticles rnd (resizeCanvas W H page0)))\<rparr>)"
    and "\<exists>s. load W H rnd = Inr s \<and> all_in_ranges s"
proof -
  let ?c = "createParticles rnd (resizeCanvas W H page0)"
  have cw: "canvas_width ?c = W" "canvas_height ?c = H"
    by (simp_all add: createParticles_def resizeCanvas_def Let_def)
  have r: "\<And>p. p \<in> set (particles ?c) \<Longrightarrow> in_ranges p"
    using created_in_ranges [OF assms] by blast
  obtain frame where
    f: "drawParticles ?c = Inr (?c\<lparr>particles := map (advance W H) (particles ?c)\<rparr>, frame)"
    using drawParticles_ok [of ?c, OF r] cw by auto
  show "load W H rnd = Inr (?c\<lparr>particles := map (advance W H) (particles ?c)\<rparr>)"
    by (simp add: load_def f)
  then show "\<exists>s. load W H rnd = Inr s \<and> all_in_ranges s"
    using r by (simp add: all_in_ranges_def list_all_iff)
qed

lemma session_in_ranges:
  assumes "unit_random rnd"
  shows "\<exists>s. session W H rnd es = Inr s \<and> all_in_ranges s"
proof -
  obtain s0 where s0: "load W H rnd = Inr s0" "all_in_ranges s0"
    using load_in_ranges(2) [OF assms] by blast
  then show ?thesis
    using run_in_ranges [OF s0(2), of es] by (simp add: session_def)
qed


subsection \<open>The population that createParticles makes\<close>

text \<open>
  Claim C2. Whatever the canvas width and height, with area \<open>A\<close> their product, the
  population that \<^verbatim>\<open>createParticles\<close> leaves has \<open>max 30 (A div 140000)\<close> dots and
  \<open>max 70 (A div 60000)\<close> stars; on a canvas of 1400 by 800 these are 30 and 70, on a
  canvas of 2800 by 1600 they are 32 and 74.
\<close>

theorem createParticles_counts:
  "length (filter is_dot (particles (createParticles rnd s))) =
     max 30 (canvas_width s * canvas_height s div 140000)
   \<and> length (filter is_star (particles (createParticles rnd s))) =
     max 70 (canvas_width s * canvas_height s div 60000)
   \<and> length (filter is_dot (particles (createParticles rnd (resizeCanvas 1400 800 s)))) = 30
   \<and> length (filter is_star (particles (createParticles rnd (resizeCanvas 1400 800 s)))) = 70
   \<and> length (filter is_dot (particles (createParticles rnd (resizeCanvas 2800 1600 s)))) = 32
   \<and> length (filter is_star (particles (createParticles rnd (resizeCanvas 2800 1600 s)))) = 74"
  by (simp add: count_dots_created count_stars_created resizeCanvas_def)




subsection \<open>The frame that drawParticles draws\<close>

lemma draw_particle_calls_length:
  "draw_particle W H mx my p = Inr (p', c) \<Longrightarrow>
     length c = 4 * length (filter is_dot [p]) + 8 * length (filter is_star [p])"
  by (cases p) (auto simp: Let_def split: sum.splits prod.splits)

lemma draw_loop_particle:
  "draw_loop W H mx my ps = Inr (ps', cs) \<Longrightarrow> i < length ps \<Longrightarrow>
     \<exists>p' c. draw_particle W H mx my (ps ! i) = Inr (p', c)"
proof (induction ps arbitrary: i ps' cs)
  case Nil
  then show ?case by simp
next
  case (Cons p ps)
  then show ?case
    by (cases i) (auto split: sum.splits prod.splits)
qed

lemma draw_loop_calls:
  "draw_loop W H mx my ps = Inr (ps', cs) \<Longrightarrow> i < length ps \<Longrightarrow>
   draw_particle W H mx my (ps ! i) = Inr (p', c) \<Longrightarrow> k < length c \<Longrightarrow>
     cs ! (4 * length (filter is_dot (take i ps)) + 8 * length (filter is_star (take i ps)) + k)
       = c ! k"
proof (induction ps arbitrary: i ps' cs)
  case Nil
  then show ?case by simp
next
  case (Cons p ps)
  from Cons.prems(1) obtain p0 c0 ps0 cs0 where
    p0: "draw_particle W H mx my p = Inr (p0, c0)" and
    ps0: "draw_loop W H mx my ps = Inr (ps0, cs0)" and
    cs: "cs = c0 @ cs0"
    by (auto split: sum.splits prod.splits)
  show ?case
  proof (cases i)
    case 0
    with Cons.prems(3) p0 have "c = c0" by simp
    with 0 cs Cons.prems(4) show ?thesis by (simp add: nth_append)
  next
    case (Suc j)
    with Cons.prems have j: "j < length ps" "draw_particle W H mx my (ps ! j) = Inr (p', c)"
      by simp_all
    have ih: "cs0 ! (4 * length (filter is_dot (take j ps)) +
                     8 * length (filter is_star (take j ps)) + k) = c ! k"
      using Cons.IH [OF ps0 j Cons.prems(4)] .
    have len: "length c0 = 4 * length (filter is_dot [p]) + 8 * length (filter is_star [p])"
      using draw_particle_calls_length [OF p0] .
    have "4 * length (filter is_dot (take i (p # ps))) +
          8 * length (filter is_star (take i (p # ps))) + k =
          length c0 + (4 * length (filter is_dot (take j ps)) +
                       8 * length (filter is_star (take j ps)) + k)"
      using Suc len by simp
    then show ?thesis
      using ih cs by (simp only: nth_append_length_plus)
  qed
qed

lemma drawParticles_calls:
  assumes "drawParticles s = Inr (s', frame)" and "i < length (particles s)"
  shows "\<exists>p' c.
           draw_particle (canvas_width s) (canvas_height s) (mouseX s) (mouseY s)
             (particles s ! i) = Inr (p', c) \<and>
           particles s' ! i = p' \<and>
           (\<forall>k < length c. frame ! (calls_start (particles s) i + k) = c ! k)"
proof -
  let ?W = "canvas_width s" and ?H = "canvas_height s"
  from assms(1) obtain ps cs where
    dl: "draw_loop ?W ?H (mouseX s) (mouseY s) (particles s) = Inr (ps, cs)" and
    s': "s' = s\<lparr>particles := ps\<rparr>" and
    fr: "frame = ClearRect 0 0 (real ?W) (real ?H) # cs"
    by (auto simp: drawParticles_def Let_def split: sum.splits prod.splits)
  obtain p' c where
    dp: "draw_particle ?W ?H (mouseX s) (mouseY s) (particles s ! i) = Inr (p', c)"
    using draw_loop_particle [OF dl assms(2)] by blast
  have "ps = map (advance ?W ?H) (particles s)"
    using draw_loop_advance [OF dl] .
  then have "ps ! i = advance ?W ?H (particles s ! i)"
    using assms(2) by simp
  then have pi: "particles s' ! i = p'"
    using draw_particle_advance [OF dp] s' by simp
  have "\<forall>k < length c. frame ! (calls_start (particles s) i + k) = c ! k"
    using draw_loop_calls [OF dl assms(2) dp] by (simp add: fr calls_start_def)
  with dp pi show ?thesis by blast
qed

lemma drawParticles_handle:
  "drawParticles s = Inr (s', frame) \<Longrightarrow> handle AnimationFrame s = Inr s'"
  by simp

lemma drawParticles_demo:
  "drawParticles demo_page =
     Inr (demo_page\<lparr>particles := demo_particles\<rparr>, demo_frame (5 / 2) (25 / 2))"
  by (simp add: demo_page_def demo_particles_def demo_frame_def drawParticles_def Let_def
      move_dot_def twinkle_star_def star_alpha_def parallax_offset_def js_div_def ctx_arc_def)

lemma drawParticles_centred:
  "drawParticles centred_page =
     Inr (centred_page\<lparr>particles := demo_particles\<rparr>, demo_frame 10 20)"
  by (simp add: centred_page_def demo_page_def demo_particles_def demo_frame_def
      drawParticles_def Let_def move_dot_def twinkle_star_def star_alpha_def
      parallax_offset_def js_div_def ctx_arc_def)

subsection \<open>Dots\<close>

text \<open>
  Claim C3. On each run of \<^verbatim>\<open>drawParticles\<close>, each dot of the page has its velocity
  added to its position and then, on each axis by itself, a coordinate below \<open>-50\<close> set
  to the edge length plus 20 and a coordinate above the edge length plus 50 set to \<open>-20\<close>;
  the dot so moved is the one stored in the page that the animation frame leaves, and the
  one drawn in the frame. A dot at \<open>x = width + 60\<close> with \<open>vx = 0\<close> is at \<open>x = -20\<close>
  after one frame.
\<close>

theorem dust_advance_wrap:
  assumes "drawParticles s = Inr (s', frame)"
      and "i < length (particles s)"
      and "particles s ! i = Dot x y vx vy r a"
  shows "particles s' ! i =
           Dot (if x + vx < - 50 then real (canvas_width s) + 20
                else if x + vx > real (canvas_width s) + 50 then - 20 else x + vx)
               (if y + vy < - 50 then real (canvas_height s) + 20
                else if y + vy > real (canvas_height s) + 50 then - 20 else y + vy)
               vx vy r a
     \<and> frame ! (calls_start (particles s) i + 2) =
         Arc (Fin (p_x (particles s' ! i))) (Fin (p_y (particles s' ! i))) r
     \<and> handle AnimationFrame s = Inr s'
     \<and> (x = real (canvas_width s) + 60 \<and> vx = 0 \<longrightarrow> p_x (particles s' ! i) = - 20)"
proof -
  obtain p' c where
    dp: "draw_particle (canvas_width s) (canvas_height s) (mouseX s) (mouseY s)
           (particles s ! i) = Inr (p', c)" and
    pi: "particles s' ! i = p'" and
    fr: "\<forall>k < length c. frame ! (calls_start (particles s) i + k) = c ! k"
    using drawParticles_calls [OF assms(1,2)] by blast
  from dp have p': "p' = move_dot (canvas_width s) (canvas_height s) (Dot x y vx vy r a)"
    and c: "c = [BeginPath, FillStyle a, Arc (Fin (p_x p')) (Fin (p_y p')) r, Fill]"
    by (auto simp: assms(3) Let_def move_dot_def ctx_arc_def split: if_splits)
  have 1: "particles s' ! i =
           Dot (if x + vx < - 50 then real (canvas_width s) + 20
                else if x + vx > real (canvas_width s) + 50 then - 20 else x + vx)
               (if y + vy < - 50 then real (canvas_height s) + 20
                else if y + vy > real (canvas_height s) + 50 then - 20 else y + vy)
               vx vy r a"
    using pi p' by (simp add: move_dot_def Let_def)
  have 2: "frame ! (calls_start (particles s) i + 2) =
         Arc (Fin (p_x (particles s' ! i))) (Fin (p_y (particles s' ! i))) r"
    using fr [rule_format, of 2] c pi by simp
  have 3: "handle AnimationFrame s = Inr s'"
    using assms(1) by simp
  have 4: "x = real (canvas_width s) + 60 \<and> vx = 0 \<longrightarrow> p_x (particles s' ! i) = - 20"
    using 1 by simp
  from 1 2 3 4 show ?thesis by blast
qed

theorem dust_advance_wrap_witness:
  "drawParticles demo_page =
     Inr (demo_page\<lparr>particles := demo_particles\<rparr>, demo_frame (5 / 2) (25 / 2))
   \<and> 0 < length (particles demo_page)
   \<and> particles demo_page ! 0 = Dot 160 (- 60) 0 0 1 (1 / 10)
   \<and> real (canvas_width demo_page) + 60 = 160
   \<and> particles (demo_page\<lparr>particles := demo_particles\<rparr>) ! 0 = Dot (- 20) 70 0 0 1 (1 / 10)
   \<and> demo_frame (5 / 2) (25 / 2) ! (calls_start (particles demo_page) 0 + 2) =
       Arc (Fin (- 20)) (Fin 70) 1
   \<and> handle AnimationFrame demo_page = Inr (demo_page\<lparr>particles := demo_particles\<rparr>)
   \<and> p_x (particles (demo_page\<lparr>particles := demo_particles\<rparr>) ! 0) = - 20"
proof -
  have h2: "0 < length (particles demo_page)"
    by (simp add: demo_page_def)
  have h3: "particles demo_page ! 0 = Dot 160 (- 60) 0 0 1 (1 / 10)"
    by (simp add: demo_page_def)
  have h4: "real (canvas_width demo_page) + 60 = 160"
    by (simp add: demo_page_def)
  show ?thesis
    using dust_advance_wrap [OF drawParticles_demo h2 h3] drawParticles_demo h2 h3 h4
    by (simp add: demo_page_def demo_particles_def)
qed

subsection \<open>What the events keep\<close>



lemma handle_frame:
  assumes "handle AnimationFrame s = Inr s'"
  shows "s' = s\<lparr>particles := map (advance (canvas_width s) (canvas_height s)) (particles s)\<rparr>"
  using assms by (auto split: sum.splits prod.splits dest: drawParticles_advance)


lemma handle_star:
  assumes "handle e s = Inr s'" and "i < length (particles s)"
      and "particles s ! i = Star x y r tw ts ba par"
  shows "particles s' ! i =
           Star x y r (((\<lambda>t. double_round (t + ts)) ^^ count_list [e] AnimationFrame) tw)
             ts ba par"
proof (cases e)
  case (Resize w h)
  with assms show ?thesis by (auto simp: resizeCanvas_def)
next
  case (MouseMove cx cy)
  with assms show ?thesis by (auto simp: mousemove_def)
next
  case AnimationFrame
  with assms(1) have
    "s' = s\<lparr>particles := map (advance (canvas_width s) (canvas_height s)) (particles s)\<rparr>"
    using handle_frame by blast
  with assms(2,3) AnimationFrame show ?thesis
    by (simp add: twinkle_star_def)
qed

lemma run_star:
  "run es s = Inr s' \<Longrightarrow> i < length (particles s) \<Longrightarrow>
   particles s ! i = Star x y r tw ts ba par \<Longrightarrow>
   particles s' ! i =
     Star x y r (((\<lambda>t. double_round (t + ts)) ^^ count_list es AnimationFrame) tw) ts ba par"
proof (induction es arbitrary: s tw)
  case Nil
  then show ?case by simp
next
  case (Cons e es)
  let ?f = "\<lambda>t. double_round (t + ts)"
  from Cons.prems(1) obtain s1 where s1: "handle e s = Inr s1" "run es s1 = Inr s'"
    by (auto split: sum.splits)
  have len: "i < length (particles s1)"
    using handle_kept [OF s1(1)] Cons.prems(2) map_eq_imp_length_eq by fastforce
  have st: "particles s1 ! i =
              Star x y r ((?f ^^ count_list [e] AnimationFrame) tw) ts ba par"
    using handle_star [OF s1(1) Cons.prems(2,3)] .
  have "particles s' ! i =
          Star x y r ((?f ^^ count_list es AnimationFrame)
                        ((?f ^^ count_list [e] AnimationFrame) tw)) ts ba par"
    using Cons.IH [OF s1(2) len st] .
  moreover have "(?f ^^ count_list es AnimationFrame) ((?f ^^ count_list [e] AnimationFrame) tw)
      = (?f ^^ count_list (e # es) AnimationFrame) tw"
    using funpow_swap1 [of ?f "count_list es AnimationFrame" tw] by simp
  ultimately show ?case by simp
qed

lemma handle_dot:
  assumes "handle e s = Inr s'" and "i < length (particles s)"
      and "particles s ! i = Dot x y vx vy r a"
  shows "\<exists>x' y'. particles s' ! i = Dot x' y' vx vy r a"
proof (cases e)
  case (Resize w h)
  with assms show ?thesis by (auto simp: resizeCanvas_def)
next
  case (MouseMove cx cy)
  with assms show ?thesis by (auto simp: mousemove_def)
next
  case AnimationFrame
  with assms(1) have
    "s' = s\<lparr>particles := map (advance (canvas_width s) (canvas_height s)) (particles s)\<rparr>"
    using handle_frame by blast
  with assms(2,3) AnimationFrame show ?thesis
    by (simp add: move_dot_def Let_def)
qed

lemma run_dot:
  "run es s = Inr s' \<Longrightarrow> i < length (particles s) \<Longrightarrow>
   particles s ! i = Dot x y vx vy r a \<Longrightarrow>
   \<exists>x' y'. particles s' ! i = Dot x' y' vx vy r a"
proof (induction es arbitrary: s x y)
  case Nil
  then show ?case by simp
next
  case (Cons e es)
  from Cons.prems(1) obtain s1 where s1: "handle e s = Inr s1" "run es s1 = Inr s'"
    by (auto split: sum.splits)
  have len: "i < length (particles s1)"
    using handle_kept [OF s1(1)] Cons.prems(2) map_eq_imp_length_eq by fastforce
  obtain x1 y1 where "particles s1 ! i = Dot x1 y1 vx vy r a"
    using handle_dot [OF s1(1) Cons.prems(2,3)] by blast
  then show ?case
    using Cons.IH [OF s1(2) len] by blast
qed

lemma session_all_in_ranges:
  assumes "unit_random rnd" and "session W H rnd es = Inr s"
  shows "all_in_ranges s"
  using session_in_ranges [OF assms(1), of W H es] assms(2) by auto

lemma in_ranges_nth:
  "all_in_ranges s \<Longrightarrow> i < length (particles s) \<Longrightarrow> in_ranges (particles s ! i)"
  by (simp add: all_in_ranges_def list_all_length)


lemma load_loaded:
  "unit_random rnd \<Longrightarrow> load W H rnd = Inr (loaded W H rnd)"
  by (simp add: load_in_ranges(1) loaded_def)

lemma unit_random_zero: "unit_random rnd_zero"
  by (simp add: unit_random_def rnd_zero_def)






subsection \<open>The phase of a star\<close>

lemma double_round_one [simp]: "double_round 1 = 1"
proof -
  have "double_round 1 =
          of_int (round_half_even (1 * 2 ^ 1074 / 2 ^ 1022)) * 2 ^ 1022 / 2 ^ 1074"
    by (rule double_round_binade) simp_all
  also have "1 * 2 ^ 1074 / 2 ^ 1022 = (of_int 4503599627370496 :: real)"
    by simp
  finally show ?thesis by (simp only: rhe_of_int) simp
qed








lemma loaded_in_ranges: "unit_random rnd \<Longrightarrow> all_in_ranges (loaded W H rnd)"
  using load_in_ranges(2) [of rnd W H] load_loaded [of rnd W H] by auto

lemma session_loaded: "unit_random rnd \<Longrightarrow> session W H rnd [] = Inr (loaded W H rnd)"
  by (simp add: session_def load_loaded)

lemma handle_frame_ok:
  assumes "all_in_ranges s"
  shows "handle AnimationFrame s =
           Inr (s\<lparr>particles := map (advance (canvas_width s) (canvas_height s)) (particles s)\<rparr>)"
proof -
  obtain s' where "handle AnimationFrame s = Inr s'"
    using handle_in_ranges [OF assms] by blast
  then show ?thesis using handle_frame by simp
qed









subsection \<open>Stars\<close>



lemma loaded_length:
  "length (particles (loaded 0 0 rnd)) = 100"
  by (simp add: loaded_def particles_createParticles resizeCanvas_def page0_def)






text \<open>
  Claim C6. No event changes the anchor of a star: after any events the star at an index
  has the position, radius, speed, base opacity and parallax factor it had, its phase
  alone having been advanced, once per frame. The loop body stores the star with nothing
  but the phase advanced, and draws both discs at the anchor plus the parallax offset,
  which it does not write back.
\<close>

theorem star_anchor_fixed:
  "(run es s = Inr s' \<and> i < length (particles s) \<and>
      particles s ! i = Star x y r tw ts ba par \<longrightarrow>
      p_x (particles s' ! i) = x \<and> p_y (particles s' ! i) = y \<and>
      particles s' ! i =
        Star x y r (((\<lambda>t. double_round (t + ts)) ^^ count_list es AnimationFrame) tw)
          ts ba par)
   \<and> (draw_particle W H mx my (Star x y r tw ts ba par) = Inr (p', cs) \<longrightarrow>
      p' = Star x y r (double_round (tw + ts)) ts ba par \<and>
      cs ! 2 = Arc (js_add x (fst (parallax_offset W H mx my par)))
                   (js_add y (snd (parallax_offset W H mx my par))) (r * 1.1) \<and>
      cs ! 6 = Arc (js_add x (fst (parallax_offset W H mx my par)))
                   (js_add y (snd (parallax_offset W H mx my par))) (r * 2.6))"
proof (intro conjI impI)
  assume a: "run es s = Inr s' \<and> i < length (particles s) \<and>
      particles s ! i = Star x y r tw ts ba par"
  then have st: "particles s' ! i =
      Star x y r (((\<lambda>t. double_round (t + ts)) ^^ count_list es AnimationFrame) tw)
        ts ba par"
    using run_star by blast
  from st show "p_x (particles s' ! i) = x" by simp
  from st show "p_y (particles s' ! i) = y" by simp
  from st show "particles s' ! i =
      Star x y r (((\<lambda>t. double_round (t + ts)) ^^ count_list es AnimationFrame) tw)
        ts ba par" .
next
  assume d: "draw_particle W H mx my (Star x y r tw ts ba par) = Inr (p', cs)"
  then show "p' = Star x y r (double_round (tw + ts)) ts ba par"
    by (auto simp: Let_def twinkle_star_def split: sum.splits prod.splits)
  from d show "cs ! 2 = Arc (js_add x (fst (parallax_offset W H mx my par)))
                   (js_add y (snd (parallax_offset W H mx my par))) (r * 1.1)"
    by (auto simp: Let_def twinkle_star_def ctx_arc_def split: sum.splits prod.splits if_splits)
  from d show "cs ! 6 = Arc (js_add x (fst (parallax_offset W H mx my par)))
                   (js_add y (snd (parallax_offset W H mx my par))) (r * 2.6)"
    by (auto simp: Let_def twinkle_star_def ctx_arc_def split: sum.splits prod.splits if_splits)
qed

theorem star_anchor_fixed_witness:
  "run [MouseMove 500 (- 3), AnimationFrame] demo_page =
       Inr (demo_page\<lparr>mouseX := 500, mouseY := - 3, particles := demo_particles\<rparr>)
   \<and> 1 < length (particles demo_page)
   \<and> particles demo_page ! 1 = Star 10 20 1 0 (1 / 64) (1 / 2) (1 / 2)
   \<and> p_x (particles (demo_page\<lparr>mouseX := 500, mouseY := - 3,
              particles := demo_particles\<rparr>) ! 1) = 10
   \<and> p_y (particles (demo_page\<lparr>mouseX := 500, mouseY := - 3,
              particles := demo_particles\<rparr>) ! 1) = 20
   \<and> particles (demo_page\<lparr>mouseX := 500, mouseY := - 3,
              particles := demo_particles\<rparr>) ! 1 =
       Star 10 20 1 (1 / 64) (1 / 64) (1 / 2) (1 / 2)
   \<and> draw_particle 100 50 500 (- 3) (Star 10 20 1 0 (1 / 64) (1 / 2) (1 / 2)) =
       Inr (Star 10 20 1 (1 / 64) (1 / 64) (1 / 2) (1 / 2),
            drop 5 (demo_frame (155 / 2) (58 / 5)))
   \<and> drop 5 (demo_frame (155 / 2) (58 / 5)) ! 2 =
       Arc (js_add 10 (fst (parallax_offset 100 50 500 (- 3) (1 / 2))))
           (js_add 20 (snd (parallax_offset 100 50 500 (- 3) (1 / 2)))) (1 * 1.1)"
proof -
  show ?thesis
    using star_anchor_fixed [where es = "[MouseMove 500 (- 3), AnimationFrame]"
      and s = demo_page
      and s' = "demo_page\<lparr>mouseX := 500, mouseY := - 3, particles := demo_particles\<rparr>"
      and i = 1 and x = 10 and y = 20 and r = 1 and tw = 0 and ts = "1 / 64"
      and ba = "1 / 2" and par = "1 / 2" and W = 100 and H = 50 and mx = 500 and my = "- 3"
      and p' = "Star 10 20 1 (1 / 64) (1 / 64) (1 / 2) (1 / 2)"
      and cs = "drop 5 (demo_frame (155 / 2) (58 / 5))"]
    by (simp add: demo_page_def demo_particles_def demo_frame_def move_dot_def twinkle_star_def
      star_alpha_def parallax_offset_def js_div_def ctx_arc_def drawParticles_def
      mousemove_def Let_def)
qed


lemma sin_one_ge_half: "1 / 2 \<le> sin (1::real)"
proof -
  have "pi / 6 \<le> 1" using pi_less_4 by simp
  moreover have "1 \<le> pi / 2" using pi_ge_two by simp
  moreover have "- (pi / 2) \<le> pi / 6" using pi_gt_zero by (simp add: field_simps)
  ultimately have "sin (pi / 6) \<le> sin 1"
    by (intro sin_monotone_2pi_le) simp_all
  then show ?thesis by (simp add: sin_30)
qed

lemma star_alpha_bright: "star_alpha (Star x y r 1 ts (9 / 10) par) = 1"
  using sin_one_ge_half by (simp add: star_alpha_def Let_def min_def abs_if)

lemma drawParticles_bright:
  "drawParticles bright_page =
     Inr (bright_page\<lparr>particles := [Star 10 20 1 1 (1 / 64) (9 / 10) (1 / 2)]\<rparr>, bright_frame)"
proof -
  have t: "twinkle_star (Star 10 20 1 (63 / 64) (1 / 64) (9 / 10) (1 / 2)) =
             Star 10 20 1 1 (1 / 64) (9 / 10) (1 / 2)"
    by (simp add: twinkle_star_def)
  show ?thesis
    unfolding drawParticles_def bright_page_def Let_def page.simps draw_loop.simps
      draw_particle.simps t star_alpha_bright
    by (simp add: bright_frame_def parallax_offset_def js_div_def ctx_arc_def)
qed

text \<open>
  Claim C7. On each run of \<^verbatim>\<open>drawParticles\<close>, each star of the page is drawn with the
  opacity \<open>min 1 (baseAlpha + \<bar>sin phase\<bar> * 0.6)\<close>, where the phase is the one the run has
  just advanced and stored (the outer disc has 0.6 times that), so the opacity is at most
  1, and it is 1 as soon as the sum reaches 1: for a star of base opacity 0.9 whenever the
  sine of the phase is at least 1/6 in absolute value, and so at a phase of sine 1.
\<close>

theorem star_opacity:
  assumes "drawParticles s = Inr (s', frame)"
      and "i < length (particles s)"
      and "particles s ! i = Star x y r tw ts ba par"
  shows "particles s' ! i = Star x y r (double_round (tw + ts)) ts ba par
     \<and> frame ! (calls_start (particles s) i + 1) =
         FillStyle (min 1 (ba + \<bar>sin (p_twinkle (particles s' ! i))\<bar> * 0.6))
     \<and> frame ! (calls_start (particles s) i + 5) =
         FillStyle (min 1 (ba + \<bar>sin (p_twinkle (particles s' ! i))\<bar> * 0.6) * 0.6)
     \<and> min 1 (ba + \<bar>sin (p_twinkle (particles s' ! i))\<bar> * 0.6) \<le> 1
     \<and> star_alpha (particles s' ! i) =
         min 1 (ba + \<bar>sin (p_twinkle (particles s' ! i))\<bar> * 0.6)
     \<and> (1 \<le> ba + \<bar>sin (p_twinkle (particles s' ! i))\<bar> * 0.6 \<longrightarrow>
          frame ! (calls_start (particles s) i + 1) = FillStyle 1)
     \<and> (ba = 0.9 \<and> 1 / 6 \<le> \<bar>sin (p_twinkle (particles s' ! i))\<bar> \<longrightarrow>
          frame ! (calls_start (particles s) i + 1) = FillStyle 1)
     \<and> sin (pi / 2 :: real) = 1
     \<and> star_alpha (Star x y r (pi / 2) ts 0.9 par) = 1"
proof -
  obtain p' c where
    dp: "draw_particle (canvas_width s) (canvas_height s) (mouseX s) (mouseY s)
           (particles s ! i) = Inr (p', c)" and
    pi: "particles s' ! i = p'" and
    fr: "\<forall>k < length c. frame ! (calls_start (particles s) i + k) = c ! k"
    using drawParticles_calls [OF assms(1,2)] by blast
  from dp have p': "p' = Star x y r (double_round (tw + ts)) ts ba par"
    by (auto simp: assms(3) Let_def twinkle_star_def split: sum.splits prod.splits)
  from dp have len: "length c = 8"
    using draw_particle_calls_length [OF dp] by (simp add: assms(3))
  from dp have c1: "c ! 1 = FillStyle (star_alpha p')"
    and c5: "c ! 5 = FillStyle (star_alpha p' * 0.6)"
    by (auto simp: assms(3) Let_def twinkle_star_def split: sum.splits prod.splits)
  have sa: "star_alpha p' = min 1 (ba + \<bar>sin (p_twinkle p')\<bar> * 0.6)"
    by (simp add: p' star_alpha_def Let_def)
  have 1: "particles s' ! i = Star x y r (double_round (tw + ts)) ts ba par"
    using pi p' by simp
  have 2: "frame ! (calls_start (particles s) i + 1) =
         FillStyle (min 1 (ba + \<bar>sin (p_twinkle (particles s' ! i))\<bar> * 0.6))"
    using fr [rule_format, of 1] len c1 sa pi by simp
  have 3: "frame ! (calls_start (particles s) i + 5) =
         FillStyle (min 1 (ba + \<bar>sin (p_twinkle (particles s' ! i))\<bar> * 0.6) * 0.6)"
    using fr [rule_format, of 5] len c5 sa pi by simp
  have 4: "min 1 (ba + \<bar>sin (p_twinkle (particles s' ! i))\<bar> * 0.6) \<le> 1"
    by simp
  have 5: "star_alpha (particles s' ! i) =
         min 1 (ba + \<bar>sin (p_twinkle (particles s' ! i))\<bar> * 0.6)"
    using sa pi by simp
  have 6: "1 \<le> ba + \<bar>sin (p_twinkle (particles s' ! i))\<bar> * 0.6 \<longrightarrow>
          frame ! (calls_start (particles s) i + 1) = FillStyle 1"
    using 2 by (simp add: min_def)
  have sc: "ba = 0.9 \<and> 1 / 6 \<le> \<bar>sin (p_twinkle (particles s' ! i))\<bar> \<longrightarrow>
          frame ! (calls_start (particles s) i + 1) = FillStyle 1"
    using 6 by auto
  have 7: "sin (pi / 2 :: real) = 1"
    by simp
  have 8: "star_alpha (Star x y r (pi / 2) ts 0.9 par) = 1"
    by (simp add: star_alpha_def Let_def)
  from 1 2 3 4 5 6 sc 7 8 show ?thesis by blast
qed

theorem star_opacity_witness:
  "drawParticles bright_page =
     Inr (bright_page\<lparr>particles := [Star 10 20 1 1 (1 / 64) (9 / 10) (1 / 2)]\<rparr>, bright_frame)
   \<and> 0 < length (particles bright_page)
   \<and> particles bright_page ! 0 = Star 10 20 1 (63 / 64) (1 / 64) (9 / 10) (1 / 2)
   \<and> 1 \<le> 9 / 10 + \<bar>sin (1::real)\<bar> * 0.6
   \<and> (9 / 10 :: real) = 0.9 \<and> 1 / 6 \<le> \<bar>sin (1::real)\<bar>
   \<and> calls_start (particles bright_page) 0 = 1
   \<and> bright_frame ! (calls_start (particles bright_page) 0 + 1) = FillStyle 1
   \<and> bright_frame ! (calls_start (particles bright_page) 0 + 5) = FillStyle (3 / 5)"
proof -
  have h2: "0 < length (particles bright_page)"
    by (simp add: bright_page_def)
  have h3: "particles bright_page ! 0 = Star 10 20 1 (63 / 64) (1 / 64) (9 / 10) (1 / 2)"
    by (simp add: bright_page_def)
  have h4: "1 \<le> 9 / 10 + \<bar>sin (1::real)\<bar> * 0.6"
    using sin_one_ge_half by (simp add: abs_if)
  have h4a: "(9 / 10 :: real) = 0.9" "1 / 6 \<le> \<bar>sin (1::real)\<bar>"
    using sin_one_ge_half by (simp_all add: abs_if)
  have h5: "calls_start (particles bright_page) 0 = 1"
    by (simp add: calls_start_def)
  have c: "bright_frame ! (calls_start (particles bright_page) 0 + 1) = FillStyle 1"
          "bright_frame ! (calls_start (particles bright_page) 0 + 5) = FillStyle (3 / 5)"
    by (simp_all add: h5 bright_frame_def)
  from star_opacity [OF drawParticles_bright h2 h3] drawParticles_bright h2 h3 h4 h4a h5 c
  show ?thesis by blast
qed

text \<open>
  Claim C8, as the code has it. On each run of \<^verbatim>\<open>drawParticles\<close> on a canvas of
  positive width and height, the parallax offset of each star of the page is
  \<open>((mouseX / width - 0.5) * 30 * parallax, (mouseY / height - 0.5) * 30 * parallax)\<close> for
  the pointer and canvas of the page, and both discs are drawn at the anchor plus this
  offset; with the pointer at the centre of the canvas the offset is \<open>(0, 0)\<close> and the discs
  are drawn at the anchor, whatever the parallax factor.
\<close>

theorem parallax_offset_formula:
  assumes "drawParticles s = Inr (s', frame)"
      and "i < length (particles s)"
      and "particles s ! i = Star x y r tw ts ba par"
      and "0 < canvas_width s" and "0 < canvas_height s"
  shows "parallax_offset (canvas_width s) (canvas_height s) (mouseX s) (mouseY s) par =
           (Fin ((mouseX s / real (canvas_width s) - 0.5) * 30 * par),
            Fin ((mouseY s / real (canvas_height s) - 0.5) * 30 * par))
     \<and> frame ! (calls_start (particles s) i + 2) =
         Arc (Fin (x + (mouseX s / real (canvas_width s) - 0.5) * 30 * par))
             (Fin (y + (mouseY s / real (canvas_height s) - 0.5) * 30 * par)) (r * 1.1)
     \<and> frame ! (calls_start (particles s) i + 6) =
         Arc (Fin (x + (mouseX s / real (canvas_width s) - 0.5) * 30 * par))
             (Fin (y + (mouseY s / real (canvas_height s) - 0.5) * 30 * par)) (r * 2.6)
     \<and> (mouseX s = real (canvas_width s) / 2 \<and> mouseY s = real (canvas_height s) / 2 \<longrightarrow>
          parallax_offset (canvas_width s) (canvas_height s) (mouseX s) (mouseY s) par =
            (Fin 0, Fin 0) \<and>
          frame ! (calls_start (particles s) i + 2) = Arc (Fin x) (Fin y) (r * 1.1) \<and>
          frame ! (calls_start (particles s) i + 6) = Arc (Fin x) (Fin y) (r * 2.6))"
proof -
  let ?W = "canvas_width s" and ?H = "canvas_height s"
  let ?px = "(mouseX s / real ?W - 0.5) * 30 * par"
  let ?py = "(mouseY s / real ?H - 0.5) * 30 * par"
  obtain p' c where
    dp: "draw_particle ?W ?H (mouseX s) (mouseY s) (particles s ! i) = Inr (p', c)" and
    fr: "\<forall>k < length c. frame ! (calls_start (particles s) i + k) = c ! k"
    using drawParticles_calls [OF assms(1,2)] by blast
  have po: "parallax_offset ?W ?H (mouseX s) (mouseY s) par = (Fin ?px, Fin ?py)"
    using assms(4,5) by (simp add: parallax_offset_def js_div_def)
  have len: "length c = 8"
    using draw_particle_calls_length [OF dp] by (simp add: assms(3))
  from dp have c2: "c ! 2 = Arc (Fin (x + ?px)) (Fin (y + ?py)) (r * 1.1)"
    and c6: "c ! 6 = Arc (Fin (x + ?px)) (Fin (y + ?py)) (r * 2.6)"
    by (auto simp: assms(3) po Let_def twinkle_star_def ctx_arc_def
        split: sum.splits if_splits)
  have 2: "frame ! (calls_start (particles s) i + 2) =
             Arc (Fin (x + ?px)) (Fin (y + ?py)) (r * 1.1)"
    using fr [rule_format, of 2] len c2 by simp
  have 3: "frame ! (calls_start (particles s) i + 6) =
             Arc (Fin (x + ?px)) (Fin (y + ?py)) (r * 2.6)"
    using fr [rule_format, of 6] len c6 by simp
  have 4: "mouseX s = real ?W / 2 \<and> mouseY s = real ?H / 2 \<longrightarrow>
          parallax_offset ?W ?H (mouseX s) (mouseY s) par = (Fin 0, Fin 0) \<and>
          frame ! (calls_start (particles s) i + 2) = Arc (Fin x) (Fin y) (r * 1.1) \<and>
          frame ! (calls_start (particles s) i + 6) = Arc (Fin x) (Fin y) (r * 2.6)"
  proof
    assume m: "mouseX s = real ?W / 2 \<and> mouseY s = real ?H / 2"
    then have ex: "mouseX s = real ?W / 2" and ey: "mouseY s = real ?H / 2"
      by simp_all
    have "mouseX s / real ?W = 1 / 2" unfolding ex using assms(4) by simp
    moreover have "mouseY s / real ?H = 1 / 2" unfolding ey using assms(5) by simp
    ultimately have "?px = 0" "?py = 0" by simp_all
    then show "parallax_offset ?W ?H (mouseX s) (mouseY s) par = (Fin 0, Fin 0) \<and>
          frame ! (calls_start (particles s) i + 2) = Arc (Fin x) (Fin y) (r * 1.1) \<and>
          frame ! (calls_start (particles s) i + 6) = Arc (Fin x) (Fin y) (r * 2.6)"
      using po 2 3 by simp
  qed
  from po 2 3 4 show ?thesis by blast
qed

theorem parallax_offset_formula_witness:
  "drawParticles centred_page =
     Inr (centred_page\<lparr>particles := demo_particles\<rparr>, demo_frame 10 20)
   \<and> 1 < length (particles centred_page)
   \<and> particles centred_page ! 1 = Star 10 20 1 0 (1 / 64) (1 / 2) (1 / 2)
   \<and> 0 < canvas_width centred_page \<and> 0 < canvas_height centred_page
   \<and> mouseX centred_page = real (canvas_width centred_page) / 2
   \<and> mouseY centred_page = real (canvas_height centred_page) / 2
   \<and> calls_start (particles centred_page) 1 = 5
   \<and> parallax_offset (canvas_width centred_page) (canvas_height centred_page)
         (mouseX centred_page) (mouseY centred_page) (1 / 2) = (Fin 0, Fin 0)
   \<and> demo_frame 10 20 ! (calls_start (particles centred_page) 1 + 2) =
       Arc (Fin 10) (Fin 20) (1 * 1.1)
   \<and> demo_frame 10 20 ! (calls_start (particles centred_page) 1 + 6) =
       Arc (Fin 10) (Fin 20) (1 * 2.6)
   \<and> drawParticles demo_page =
     Inr (demo_page\<lparr>particles := demo_particles\<rparr>, demo_frame (5 / 2) (25 / 2))
   \<and> demo_frame (5 / 2) (25 / 2) ! (calls_start (particles demo_page) 1 + 2) =
       Arc (Fin (10 + (mouseX demo_page / real (canvas_width demo_page) - 0.5) * 30 * (1 / 2)))
           (Fin (20 + (mouseY demo_page / real (canvas_height demo_page) - 0.5) * 30 * (1 / 2)))
           (1 * 1.1)
   \<and> (10 + (mouseX demo_page / real (canvas_width demo_page) - 0.5) * 30 * (1 / 2)) = 5 / 2"
proof -
  have h2: "1 < length (particles centred_page)"
    by (simp add: centred_page_def demo_page_def)
  have h3: "particles centred_page ! 1 = Star 10 20 1 0 (1 / 64) (1 / 2) (1 / 2)"
    by (simp add: centred_page_def demo_page_def)
  have h4: "0 < canvas_width centred_page" "0 < canvas_height centred_page"
    by (simp_all add: centred_page_def demo_page_def)
  have h5: "mouseX centred_page = real (canvas_width centred_page) / 2
         \<and> mouseY centred_page = real (canvas_height centred_page) / 2"
    by (simp add: centred_page_def demo_page_def)
  have h6: "calls_start (particles centred_page) 1 = 5"
    by (simp add: calls_start_def centred_page_def demo_page_def)
  have g2: "1 < length (particles demo_page)"
    by (simp add: demo_page_def)
  have g3: "particles demo_page ! 1 = Star 10 20 1 0 (1 / 64) (1 / 2) (1 / 2)"
    by (simp add: demo_page_def)
  have g4: "0 < canvas_width demo_page" "0 < canvas_height demo_page"
    by (simp_all add: demo_page_def)
  have g5: "(10 + (mouseX demo_page / real (canvas_width demo_page) - 0.5) * 30 * (1 / 2))
              = 5 / 2"
    by (simp add: demo_page_def)
  from parallax_offset_formula [OF drawParticles_centred h2 h3 h4]
       parallax_offset_formula [OF drawParticles_demo g2 g3 g4]
       drawParticles_centred drawParticles_demo h2 h3 h4 h5 h6 g5
  show ?thesis by blast
qed

text \<open>
  Claim C8 as stated fails on a canvas without extent: its centre is the pointer position
  \<open>(0, 0)\<close>, where \<^verbatim>\<open>mouseX / canvas.width\<close> is \<open>0 / 0\<close>, and the offset is
  \<open>(NaN, NaN)\<close>.
\<close>

theorem parallax_centre_counterexample:
  "real (0::nat) / 2 = 0
   \<and> parallax_offset 0 0 (real (0::nat) / 2) (real (0::nat) / 2) 1 = (NaN, NaN)
   \<and> parallax_offset 0 0 (real (0::nat) / 2) (real (0::nat) / 2) 1 \<noteq> (Fin 0, Fin 0)"
  by (simp add: parallax_offset_def js_div_def)

subsection \<open>Dots keep their velocity\<close>

text \<open>
  Claim C10. In every session the velocity of a dot is the one \<^verbatim>\<open>createParticles\<close>
  gave it, with \<open>vx\<close> in \<open>[-0.15, 0.15)\<close> and \<open>vy\<close> in \<open>[-0.3, 0.3)\<close>: after any events
  the dot at an index has the velocity (and the radius and opacity) it had, its position
  alone having changed, and the loop body reads the velocity and leaves it as it was.
\<close>

theorem dust_velocity_constant:
  assumes "unit_random rnd"
      and "session W H rnd es0 = Inr s"
      and "run es s = Inr s'"
      and "i < length (particles s)"
      and "particles s ! i = Dot x y vx vy r a"
  shows "- 0.15 \<le> vx \<and> vx < 0.15 \<and> - 0.3 \<le> vy \<and> vy < 0.3
     \<and> (\<exists>x' y'. particles s' ! i = Dot x' y' vx vy r a)
     \<and> p_vx (particles s' ! i) = vx \<and> p_vy (particles s' ! i) = vy
     \<and> p_vx (move_dot W' H' (Dot x y vx vy r a)) = vx
     \<and> p_vy (move_dot W' H' (Dot x y vx vy r a)) = vy"
proof -
  have "all_in_ranges s"
    using session_all_in_ranges [OF assms(1,2)] .
  then have "in_ranges (Dot x y vx vy r a)"
    using in_ranges_nth assms(4,5) by fastforce
  then have v: "- 0.15 \<le> vx \<and> vx < 0.15 \<and> - 0.3 \<le> vy \<and> vy < 0.3"
    by simp
  obtain x' y' where d: "particles s' ! i = Dot x' y' vx vy r a"
    using run_dot [OF assms(3,4,5)] by blast
  have m: "p_vx (move_dot W' H' (Dot x y vx vy r a)) = vx"
          "p_vy (move_dot W' H' (Dot x y vx vy r a)) = vy"
    by (simp_all add: move_dot_def Let_def)
  from v d m show ?thesis by simp
qed

lemma loaded_zero_dot:
  "particles (loaded 0 0 rnd_zero) ! 0 =
     Dot (- 3 / 20) (- 3 / 10) (- 3 / 20) (- 3 / 10) (1 / 5) (3 / 100)"
  by (simp add: loaded_def particles_createParticles resizeCanvas_def page0_def nth_append
      new_dot_def rnd_zero_def move_dot_def Let_def upt_conv_Cons)

theorem dust_velocity_constant_witness:
  "unit_random rnd_zero
   \<and> session 0 0 rnd_zero [] = Inr (loaded 0 0 rnd_zero)
   \<and> run [AnimationFrame] (loaded 0 0 rnd_zero) =
       Inr ((loaded 0 0 rnd_zero)
              \<lparr>particles := map (advance 0 0) (particles (loaded 0 0 rnd_zero))\<rparr>)
   \<and> 0 < length (particles (loaded 0 0 rnd_zero))
   \<and> particles (loaded 0 0 rnd_zero) ! 0 =
       Dot (- 3 / 20) (- 3 / 10) (- 3 / 20) (- 3 / 10) (1 / 5) (3 / 100)
   \<and> (- 0.15::real) \<le> - 3 / 20 \<and> (- 3 / 20::real) < 0.15
   \<and> (- 0.3::real) \<le> - 3 / 10 \<and> (- 3 / 10::real) < 0.3
   \<and> p_vx (particles ((loaded 0 0 rnd_zero)
         \<lparr>particles := map (advance 0 0) (particles (loaded 0 0 rnd_zero))\<rparr>) ! 0) = - 3 / 20
   \<and> p_vy (particles ((loaded 0 0 rnd_zero)
         \<lparr>particles := map (advance 0 0) (particles (loaded 0 0 rnd_zero))\<rparr>) ! 0) = - 3 / 10"
proof -
  have cw: "canvas_width (loaded 0 0 rnd_zero) = 0" "canvas_height (loaded 0 0 rnd_zero) = 0"
    by (simp_all add: loaded_def createParticles_def resizeCanvas_def page0_def Let_def)
  have h1: "unit_random rnd_zero"
    by (rule unit_random_zero)
  have h2: "session 0 0 rnd_zero [] = Inr (loaded 0 0 rnd_zero)"
    by (rule session_loaded [OF h1])
  have h3: "run [AnimationFrame] (loaded 0 0 rnd_zero) =
       Inr ((loaded 0 0 rnd_zero)
              \<lparr>particles := map (advance 0 0) (particles (loaded 0 0 rnd_zero))\<rparr>)"
    using handle_frame_ok [OF loaded_in_ranges [OF h1, of 0 0]] by (simp add: cw)
  have h4: "0 < length (particles (loaded 0 0 rnd_zero))"
    by (simp add: loaded_length)
  have h5: "particles (loaded 0 0 rnd_zero) ! 0 =
       Dot (- 3 / 20) (- 3 / 10) (- 3 / 20) (- 3 / 10) (1 / 5) (3 / 100)"
    by (rule loaded_zero_dot)
  show ?thesis
    using dust_velocity_constant [OF h1 h2 h3 h4 h5] h1 h2 h3 h4 h5
    by simp
qed


subsection \<open>No exception\<close>








end
